theory Spec2Isabelle
  imports
    Main
    "HOL-Library.Char_ord"
    "HOL-Library.List_Lexorder"
    "HOL-Library.Sublist"
    "HOL-Library.Multiset"
begin

section \<open>The extension inventory reporter (scripts/analyze_extensions.py)\<close>

text \<open>
  The script reads one JSON mapping from extension identifier to metadata, turns it
  into a list of records, sorts the list by name, classifies the records by keyword,
  and writes a listing document and an analysis document.

  Modelling decisions.
  \<^item> A Python \<open>str\<close> field is a \<^typ>\<open>string\<close>: a list of characters with code points
    below 256, ordered by code point (\<open>Char_ord\<close>) and compared lexicographically
    (\<open>List_Lexorder\<close>), which is how Python compares strings on that range.
  \<^item> The metadata fields have the types of the input format: \<open>name\<close>,
    \<open>publisher\<close>, \<open>version\<close> are strings and \<open>enabled\<close> is a boolean, each
    optional; a field holding a value of another type is outside the model. A value
    that is not a JSON object is \<open>NonObject\<close>.
  \<^item> The parsed mapping is the list of its items in insertion order, which is the
    order \<open>data.items()\<close> iterates in.
  \<^item> The fixed Korean display texts of the two documents are constructors of the
    line datatypes below; every value the script interpolates into a line is an
    argument of the constructor.
\<close>

subsection \<open>Strings\<close>

definition lower_char :: "char \<Rightarrow> char" where
  \<comment> \<open>\<open>str.lower()\<close> on one character of the range 0..255: the letters A..Z and the
      accented capitals 192..222 other than the multiplication sign 215 move up by 32.\<close>
  "lower_char c =
     (let n = (of_char c :: nat)
      in if (65 \<le> n \<and> n \<le> 90) \<or> (192 \<le> n \<and> n \<le> 222 \<and> n \<noteq> 215)
         then char_of (n + 32) else c)"

definition lower :: "string \<Rightarrow> string" where
  "lower s = map lower_char s"

definition contains :: "string \<Rightarrow> string \<Rightarrow> bool" where
  \<comment> \<open>\<open>sub in s\<close> on strings: \<open>sub\<close> occurs in \<open>s\<close> as a contiguous run\<close>
  "contains sub s = sublist sub s"

definition remove_spaces :: "string \<Rightarrow> string" where
  \<comment> \<open>\<open>s.replace(" ", "")\<close>\<close>
  "remove_spaces s = filter (\<lambda>c. c \<noteq> CHR '' '') s"

definition ljust :: "nat \<Rightarrow> string \<Rightarrow> string" where
  \<comment> \<open>the format specification \<open><n\<close>: pad on the right with spaces up to width \<open>n\<close>\<close>
  "ljust n s = s @ replicate (n - length s) CHR '' ''"

subsection \<open>The input mapping and the records\<close>

record metadata =
  m_name :: "string option"
  m_publisher :: "string option"
  m_version :: "string option"
  m_enabled :: "bool option"

datatype raw_value = Object metadata | NonObject

type_synonym raw_mapping = "(string \<times> raw_value) list"

record extension =
  ext_id :: string
  ext_name :: string
  ext_publisher :: string
  ext_version :: string
  ext_enabled :: bool

definition get_default :: "'a option \<Rightarrow> 'a \<Rightarrow> 'a" where
  \<comment> \<open>\<open>value.get(field, default)\<close>\<close>
  "get_default v d = (case v of None \<Rightarrow> d | Some x \<Rightarrow> x)"

definition make_record :: "string \<Rightarrow> metadata \<Rightarrow> extension" where
  "make_record key v =
     \<lparr> ext_id = key,
       ext_name = get_default (m_name v) ''N/A'',
       ext_publisher = get_default (m_publisher v) ''N/A'',
       ext_version = get_default (m_version v) ''N/A'',
       ext_enabled = get_default (m_enabled v) True \<rparr>"

fun build_loop :: "extension list \<Rightarrow> raw_mapping \<Rightarrow> extension list" where
  \<comment> \<open>the loop of lines 28 to 39: \<open>acc\<close> is the list \<open>extensions\<close> so far\<close>
  "build_loop acc [] = acc"
| "build_loop acc ((key, v) # rest) =
     (case v of
        Object m \<Rightarrow> build_loop (acc @ [make_record key m]) rest
      | NonObject \<Rightarrow> build_loop acc rest)"

definition build_records :: "raw_mapping \<Rightarrow> extension list" where
  "build_records data = build_loop [] data"

definition extensions :: "raw_mapping \<Rightarrow> extension list" where
  \<comment> \<open>line 42: \<open>extensions.sort(key=lambda x: x["name"])\<close>; Python's sort is stable,
      as is \<^const>\<open>sort_key\<close>\<close>
  "extensions data = sort_key ext_name (build_records data)"

subsection \<open>Categories (lines 65 to 105)\<close>

definition is_language :: "extension \<Rightarrow> bool" where
  "is_language e \<longleftrightarrow>
     contains ''language'' (lower (ext_id e))
     \<or> contains ''language'' (lower (ext_name e))
     \<or> contains ''syntax'' (lower (ext_id e))"

definition is_theme :: "extension \<Rightarrow> bool" where
  "is_theme e \<longleftrightarrow>
     contains ''theme'' (lower (ext_id e)) \<or> contains ''theme'' (lower (ext_name e))"

definition is_git :: "extension \<Rightarrow> bool" where
  "is_git e \<longleftrightarrow>
     contains ''git'' (lower (ext_id e)) \<or> contains ''git'' (lower (ext_name e))"

definition is_debug :: "extension \<Rightarrow> bool" where
  "is_debug e \<longleftrightarrow>
     contains ''debug'' (lower (ext_id e)) \<or> contains ''debug'' (lower (ext_name e))"

definition is_format :: "extension \<Rightarrow> bool" where
  \<comment> \<open>\<open>any(x in e["id"].lower() for x in [...])\<close>\<close>
  "is_format e \<longleftrightarrow>
     list_ex (\<lambda>x. contains x (lower (ext_id e)))
       [''formatter'', ''linter'', ''prettier'', ''eslint'']"

definition language_exts :: "extension list \<Rightarrow> extension list" where
  "language_exts exts = filter is_language exts"

definition theme_exts :: "extension list \<Rightarrow> extension list" where
  "theme_exts exts = filter is_theme exts"

definition git_exts :: "extension list \<Rightarrow> extension list" where
  "git_exts exts = filter is_git exts"

definition debug_exts :: "extension list \<Rightarrow> extension list" where
  "debug_exts exts = filter is_debug exts"

definition format_exts :: "extension list \<Rightarrow> extension list" where
  "format_exts exts = filter is_format exts"

definition other_count :: "extension list \<Rightarrow> int" where
  \<comment> \<open>Python integers are unbounded and signed, so the subtraction is on \<^typ>\<open>int\<close>\<close>
  "other_count exts =
     int (length exts)
     - int (length (language_exts exts))
     - int (length (theme_exts exts))
     - int (length (git_exts exts))
     - int (length (debug_exts exts))
     - int (length (format_exts exts))"

subsection \<open>The listing document (lines 47 to 106)\<close>

type_synonym timestamp = string
  \<comment> \<open>the text \<open>datetime.now().strftime('%Y-%m-%d %H:%M:%S')\<close> returns\<close>

datatype status = Enabled | Disabled
  \<comment> \<open>the two status tokens, chosen by \<open>ext["enabled"]\<close>\<close>

datatype category = Language | Theme | Git | Debug | Format

datatype listing_line =
    Listing_Title
  | Generated_At timestamp
  | Total_Count nat
  | Blank
  | Rule
  | Table_Header
  | Table_Row nat string string string string status
  | Category_Title
  | Category_Count category nat
  | Other_Count int

definition status_of :: "extension \<Rightarrow> status" where
  "status_of e = (if ext_enabled e then Enabled else Disabled)"

definition truncate_id :: "string \<Rightarrow> string" where
  \<comment> \<open>line 56: \<open>ext["id"][:47] + "..." if len(ext["id"]) > 50 else ext["id"]\<close>\<close>
  "truncate_id s = (if length s > 50 then take 47 s @ ''...'' else s)"

definition truncate_name :: "string \<Rightarrow> string" where
  \<comment> \<open>line 57: \<open>ext["name"][:32] + "..." if len(ext["name"]) > 35 else ext["name"]\<close>\<close>
  "truncate_name s = (if length s > 35 then take 32 s @ ''...'' else s)"

definition table_row :: "nat \<Rightarrow> extension \<Rightarrow> listing_line" where
  \<comment> \<open>line 58; the string cells are padded as their format specifications say\<close>
  "table_row idx e =
     Table_Row idx
       (ljust 50 (truncate_id (ext_id e)))
       (ljust 35 (truncate_name (ext_name e)))
       (ljust 20 (ext_publisher e))
       (ljust 15 (ext_version e))
       (status_of e)"

fun table_rows :: "nat \<Rightarrow> extension list \<Rightarrow> listing_line list" where
  \<comment> \<open>the loop of lines 54 to 58 over \<open>enumerate(extensions, idx)\<close>\<close>
  "table_rows idx [] = []"
| "table_rows idx (e # es) = table_row idx e # table_rows (Suc idx) es"

definition listing :: "timestamp \<Rightarrow> extension list \<Rightarrow> listing_line list" where
  "listing now exts =
     [Listing_Title, Generated_At now, Total_Count (length exts), Blank,
      Rule, Table_Header, Rule]
     @ table_rows 1 exts
     @ [Blank, Blank, Rule, Category_Title, Rule, Blank,
        Category_Count Language (length (language_exts exts)),
        Category_Count Theme (length (theme_exts exts)),
        Category_Count Git (length (git_exts exts)),
        Category_Count Debug (length (debug_exts exts)),
        Category_Count Format (length (format_exts exts)),
        Other_Count (other_count exts)]"

fun is_table_row :: "listing_line \<Rightarrow> bool" where
  "is_table_row (Table_Row idx i n p v s) = True"
| "is_table_row l = False"

subsection \<open>Disabled records and duplicate-name groups (lines 120 to 137)\<close>

definition disabled_exts :: "extension list \<Rightarrow> extension list" where
  "disabled_exts exts = filter (\<lambda>e. \<not> ext_enabled e) exts"

definition name_key :: "extension \<Rightarrow> string" where
  \<comment> \<open>line 132: \<open>ext["name"].lower().replace(" ", "")\<close>\<close>
  "name_key e = remove_spaces (lower (ext_name e))"

type_synonym groups = "(string \<times> extension list) list"
  \<comment> \<open>the dictionary \<open>name_groups\<close>, as its items in insertion order\<close>

fun add_to_group :: "groups \<Rightarrow> string \<Rightarrow> extension \<Rightarrow> groups" where
  \<comment> \<open>lines 133 to 135: a new key enters at the end with an empty list, then the
      record is appended to the list of its key\<close>
  "add_to_group [] key e = [(key, [e])]"
| "add_to_group ((k, g) # rest) key e =
     (if k = key then (k, g @ [e]) # rest else (k, g) # add_to_group rest key e)"

fun group_loop :: "groups \<Rightarrow> extension list \<Rightarrow> groups" where
  "group_loop gs [] = gs"
| "group_loop gs (e # es) = group_loop (add_to_group gs (name_key e) e) es"

definition name_groups :: "extension list \<Rightarrow> groups" where
  "name_groups exts = group_loop [] exts"

definition duplicates :: "extension list \<Rightarrow> extension list list" where
  \<comment> \<open>line 137: \<open>[g for g in name_groups.values() if len(g) > 1]\<close>\<close>
  "duplicates exts = filter (\<lambda>g. length g > 1) (map snd (name_groups exts))"

subsection \<open>The recommended-removal tally (lines 189 to 205)\<close>

fun removal_loop :: "int \<Rightarrow> extension list list \<Rightarrow> int" where
  \<comment> \<open>lines 194 to 196\<close>
  "removal_loop r [] = r"
| "removal_loop r (g # gs) =
     removal_loop (if length g > 1 then r + (int (length g) - 1) else r) gs"

definition recommended_removals :: "extension list \<Rightarrow> int" where
  "recommended_removals exts =
     (let r = (if disabled_exts exts \<noteq> [] then 0 + int (length (disabled_exts exts)) else 0)
      in removal_loop r (duplicates exts))"

definition kept :: "extension list \<Rightarrow> int" where
  \<comment> \<open>line 205: \<open>len(extensions) - recommended_removals\<close>\<close>
  "kept exts = int (length exts) - recommended_removals exts"

subsection \<open>The analysis document (lines 115 to 205)\<close>

datatype analysis_line =
    A_Blank
  | A_Rule
  | Analysis_Title
  | Disabled_Heading nat
  | Numbered_Entry nat string string
  | Disabled_Advice
  | All_Enabled_Note
  | Duplicates_Heading nat
  | Group_Heading nat string nat
  | Group_Member string string string status
  | Keep_One_Advice
  | No_Duplicates_Note
  | Theme_Heading nat
  | Theme_Advice
  | Adequate_Note
  | Language_Heading nat
  | Language_Advice
  | Format_Heading nat
  | Format_Advice
  | Git_Heading nat
  | Git_Advice
  | Debug_Heading nat
  | Summary_Title
  | Remove_Disabled_Summary nat
  | Remove_Total_Summary int
  | Well_Managed_Note
  | Kept_Summary nat int

fun numbered_entries :: "nat \<Rightarrow> extension list \<Rightarrow> analysis_line list" where
  \<comment> \<open>the loops of lines 123, 155 and 171 over \<open>enumerate(..., idx)\<close>\<close>
  "numbered_entries idx [] = []"
| "numbered_entries idx (e # es) =
     Numbered_Entry idx (ext_name e) (ext_id e) # numbered_entries (Suc idx) es"

definition group_member :: "extension \<Rightarrow> analysis_line" where
  "group_member e = Group_Member (ext_id e) (ext_publisher e) (ext_version e) (status_of e)"

fun group_lines :: "nat \<Rightarrow> extension list list \<Rightarrow> analysis_line list" where
  \<comment> \<open>the loop of lines 140 to 145; \<open>group[0]\<close> is read from groups of more than
      one member only (lemma \<open>duplicates_nonempty\<close>)\<close>
  "group_lines idx [] = []"
| "group_lines idx (g # gs) =
     [Group_Heading idx (ext_name (hd g)) (length g)]
     @ map group_member g
     @ [Keep_One_Advice]
     @ group_lines (Suc idx) gs"

definition analysis :: "extension list \<Rightarrow> analysis_line list" where
  "analysis exts =
     [A_Blank, A_Blank, A_Rule, Analysis_Title, A_Rule]
     @ [A_Blank, Disabled_Heading (length (disabled_exts exts))]
     @ (if disabled_exts exts \<noteq> []
        then numbered_entries 1 (disabled_exts exts) @ [Disabled_Advice]
        else [All_Enabled_Note])
     @ [A_Blank, Duplicates_Heading (length (duplicates exts))]
     @ (if duplicates exts \<noteq> []
        then group_lines 1 (duplicates exts)
        else [No_Duplicates_Note])
     @ [A_Blank, Theme_Heading (length (theme_exts exts))]
     @ (if length (theme_exts exts) > 3
        then Theme_Advice # numbered_entries 1 (theme_exts exts)
        else [Adequate_Note])
     @ [A_Blank, Language_Heading (length (language_exts exts))]
     @ (if length (language_exts exts) > 10 then [Language_Advice] else [Adequate_Note])
     @ [A_Blank, Format_Heading (length (format_exts exts))]
     @ (if length (format_exts exts) > 5
        then Format_Advice # numbered_entries 1 (format_exts exts)
        else [])
     @ [A_Blank, Git_Heading (length (git_exts exts))]
     @ (if length (git_exts exts) > 3 then [Git_Advice] else [])
     @ [A_Blank, Debug_Heading (length (debug_exts exts))]
     @ [A_Blank, A_Rule, Summary_Title, A_Rule]
     @ (if disabled_exts exts \<noteq> []
        then [Remove_Disabled_Summary (length (disabled_exts exts))]
        else [])
     @ (if recommended_removals exts > 0
        then [Remove_Total_Summary (recommended_removals exts)]
        else [Well_Managed_Note])
     @ [A_Blank, Kept_Summary (length exts) (kept exts)]"

subsection \<open>The run and its error handler (lines 15 to 227)\<close>

text \<open>
  The environment of a run: what the input path holds, what the clock reads when the
  listing is built, whether each \<open>print\<close> call succeeds (a call raises when standard
  output cannot encode its text or is closed; the calls are told apart by their source
  line), and whether each of the three output files can be written. What a run leaves
  behind is the files it wrote, its exit code, the exception that escaped the handler
  if one did, and the sequence of its effects.
\<close>

definition backslash :: string where
  "backslash = [CHR 0x5C]"

definition extensions_json_path :: string where
  "extensions_json_path =
     ''C:'' @ backslash @ ''Users'' @ backslash @ ''dalko'' @ backslash @ ''.cursor''
     @ backslash @ ''extensions'' @ backslash @ ''extensions.json''"

definition output_path :: string where
  "output_path =
     ''f:'' @ backslash @ ''mobinogi'' @ backslash @ ''calc-runes'' @ backslash
     @ ''cursor-extensions-list.txt''"

definition analysis_path :: string where
  "analysis_path =
     ''f:'' @ backslash @ ''mobinogi'' @ backslash @ ''calc-runes'' @ backslash
     @ ''extension-analysis.txt''"

definition error_path :: string where
  "error_path =
     ''f:'' @ backslash @ ''mobinogi'' @ backslash @ ''calc-runes'' @ backslash
     @ ''extension-error.txt''"

datatype input_file =
    Absent
  | Unreadable
  | Malformed
  | Not_A_Mapping
  | Mapping raw_mapping

record env =
  input :: input_file
  clock :: timestamp
  stdout_accepts :: "nat \<Rightarrow> bool"
  listing_writable :: bool
  analysis_writable :: bool
  error_writable :: bool

datatype exc =
    FileNotFoundError string
  | Input_Unreadable
  | JSONDecodeError
  | AttributeError
  | Listing_Unwritable
  | Analysis_Unwritable
  | Print_Failed nat

datatype fragment =
    Error_Label
  | Not_Found_Label
  | Path string
  | Library_Message exc
  | Traceback exc

definition exc_text :: "exc \<Rightarrow> fragment list" where
  \<comment> \<open>\<open>str(e)\<close>; line 20 builds the message of the file-not-found error from a fixed
      text and the path\<close>
  "exc_text e =
     (case e of
        FileNotFoundError p \<Rightarrow> [Not_Found_Label, Path p]
      | _ \<Rightarrow> [Library_Message e])"

definition error_msg :: "exc \<Rightarrow> fragment list" where
  \<comment> \<open>lines 214 to 217\<close>
  "error_msg e = [Error_Label] @ exc_text e @ [Traceback e]"

datatype event =
    Print nat
  | Check_Exists string
  | Open_Read string
  | Json_Load
  | Open_Write string

record world =
  listing_file :: "listing_line list option"
  analysis_file :: "analysis_line list option"
  error_file :: "fragment list option"
  events :: "event list"
  uncaught :: "exc option"
  exit_code :: int

definition initial :: world where
  "initial =
     \<lparr> listing_file = None, analysis_file = None, error_file = None,
       events = [], uncaught = None, exit_code = 0 \<rparr>"

definition log :: "event \<Rightarrow> world \<Rightarrow> world" where
  "log ev w = w\<lparr>events := events w @ [ev]\<rparr>"

type_synonym 'a step = "world \<Rightarrow> world \<times> (exc + 'a)"

definition and_then :: "'a step \<Rightarrow> ('a \<Rightarrow> 'b step) \<Rightarrow> 'b step" where
  \<comment> \<open>one statement after another: an exception ends the \<open>try\<close> block\<close>
  "and_then m f w =
     (case m w of
        (w1, Inl x) \<Rightarrow> (w1, Inl x)
      | (w1, Inr a) \<Rightarrow> f a w1)"

definition print_at :: "env \<Rightarrow> nat \<Rightarrow> unit step" where
  \<comment> \<open>the \<open>print\<close> call of source line \<open>n\<close>\<close>
  "print_at e n w =
     (log (Print n) w, if stdout_accepts e n then Inr () else Inl (Print_Failed n))"

definition check_exists :: "env \<Rightarrow> unit step" where
  \<comment> \<open>lines 19 and 20\<close>
  "check_exists e w =
     (log (Check_Exists extensions_json_path) w,
      if input e = Absent then Inl (FileNotFoundError extensions_json_path) else Inr ())"

definition open_and_parse :: "env \<Rightarrow> unit step" where
  \<comment> \<open>lines 22 and 23: \<open>open\<close> raises on a file that cannot be read, \<open>json.load\<close>
      on content that is not JSON\<close>
  "open_and_parse e w =
     (let w1 = log (Open_Read extensions_json_path) w
      in case input e of
           Absent \<Rightarrow> (w1, Inl Input_Unreadable)
         | Unreadable \<Rightarrow> (w1, Inl Input_Unreadable)
         | Malformed \<Rightarrow> (log Json_Load w1, Inl JSONDecodeError)
         | Not_A_Mapping \<Rightarrow> (log Json_Load w1, Inr ())
         | Mapping data \<Rightarrow> (log Json_Load w1, Inr ()))"

definition items :: "env \<Rightarrow> raw_mapping step" where
  \<comment> \<open>line 29: \<open>data.items()\<close>, which only a mapping has\<close>
  "items e w =
     (case input e of
        Mapping data \<Rightarrow> (w, Inr data)
      | _ \<Rightarrow> (w, Inl AttributeError))"

definition load :: "env \<Rightarrow> raw_mapping step" where
  \<comment> \<open>lines 16 to 29\<close>
  "load e =
     and_then (print_at e 16) (\<lambda>u.
     and_then (print_at e 17) (\<lambda>u.
     and_then (check_exists e) (\<lambda>u.
     and_then (open_and_parse e) (\<lambda>u.
     and_then (print_at e 25) (\<lambda>u.
     and_then (print_at e 26) (\<lambda>u.
     items e))))))"

definition write_listing :: "env \<Rightarrow> extension list \<Rightarrow> unit step" where
  \<comment> \<open>lines 47 to 109: the clock is read when the header is built\<close>
  "write_listing e exts w =
     (let w1 = log (Open_Write output_path) w
      in if listing_writable e
         then (w1\<lparr>listing_file := Some (listing (clock e) exts)\<rparr>, Inr ())
         else (w1, Inl Listing_Unwritable))"

definition write_analysis :: "env \<Rightarrow> extension list \<Rightarrow> unit step" where
  \<comment> \<open>lines 115 to 208\<close>
  "write_analysis e exts w =
     (let w1 = log (Open_Write analysis_path) w
      in if analysis_writable e
         then (w1\<lparr>analysis_file := Some (analysis exts)\<rparr>, Inr ())
         else (w1, Inl Analysis_Unwritable))"

definition report :: "env \<Rightarrow> raw_mapping \<Rightarrow> unit step" where
  \<comment> \<open>lines 28 to 211: the listing is written before the analysis is built\<close>
  "report e data =
     (let exts = extensions data
      in and_then (print_at e 44) (\<lambda>u.
         and_then (write_listing e exts) (\<lambda>u.
         and_then (print_at e 111) (\<lambda>u.
         and_then (print_at e 112) (\<lambda>u.
         and_then (write_analysis e exts) (\<lambda>u.
         and_then (print_at e 210) (\<lambda>u.
         print_at e 211)))))))"

definition body :: "env \<Rightarrow> unit step" where
  "body e = and_then (load e) (report e)"

definition handler :: "env \<Rightarrow> exc \<Rightarrow> world \<Rightarrow> world" where
  \<comment> \<open>lines 213 to 227. The \<open>print\<close> of line 218 stands before the inner \<open>try\<close>: when
      it raises, the exception leaves the handler, nothing is written, and the
      interpreter ends the run with status 1. Otherwise a failed write of the error
      file is swallowed by the bare \<open>except\<close>, and \<open>exit(1)\<close> follows in both cases.\<close>
  "handler e x w =
     (let w1 = log (Print 218) w
      in if \<not> stdout_accepts e 218
         then w1\<lparr>uncaught := Some (Print_Failed 218), exit_code := 1\<rparr>
         else
           let w2 = log (Open_Write error_path) w1;
               w3 = (if error_writable e then w2\<lparr>error_file := Some (error_msg x)\<rparr>
                     else w2)
           in w3\<lparr>exit_code := 1\<rparr>)"

definition main :: "env \<Rightarrow> world" where
  "main e =
     (case body e initial of
        (w, Inl x) \<Rightarrow> handler e x w
      | (w, Inr u) \<Rightarrow> w)"

subsection \<open>The record list as the specification words it\<close>

definition record_of_entry :: "string \<times> raw_value \<Rightarrow> extension list" where
  \<comment> \<open>one record for an entry whose value is an object, none for any other entry\<close>
  "record_of_entry kv =
     (case snd kv of Object m \<Rightarrow> [make_record (fst kv) m] | NonObject \<Rightarrow> [])"

fun is_object :: "raw_value \<Rightarrow> bool" where
  \<comment> \<open>\<open>isinstance(value, dict)\<close>\<close>
  "is_object (Object m) = True"
| "is_object NonObject = False"

subsection \<open>Example inputs\<close>

definition example_mapping :: raw_mapping where
  "example_mapping =
     [(''pub.zeta'', Object \<lparr> m_name = Some ''Zeta'', m_publisher = Some ''pub'',
                              m_version = Some ''1.0'', m_enabled = Some False \<rparr>),
      (''__meta'', NonObject),
      (''pub.bare'', Object \<lparr> m_name = None, m_publisher = None,
                             m_version = None, m_enabled = None \<rparr>)]"

definition overlap_mapping :: raw_mapping where
  "overlap_mapping =
     [(''pub.git-theme'', Object \<lparr> m_name = Some ''GitHub Theme'', m_publisher = None,
                                   m_version = None, m_enabled = None \<rparr>)]"

subsection \<open>Case-insensitive occurrence, as the specification words it\<close>

definition occurs_ci :: "string \<Rightarrow> string \<Rightarrow> bool" where
  \<comment> \<open>\<open>word\<close> occurs in \<open>s\<close> case-insensitively: some contiguous run of \<open>s\<close> and
      \<open>word\<close> have the same lower-case form\<close>
  "occurs_ci word s \<longleftrightarrow> (\<exists>ps t ss. s = ps @ t @ ss \<and> lower t = lower word)"

definition sample :: "string \<Rightarrow> string \<Rightarrow> extension" where
  "sample i n =
     \<lparr> ext_id = i, ext_name = n, ext_publisher = ''N/A'', ext_version = ''N/A'',
       ext_enabled = True \<rparr>"

definition group_of :: "groups \<Rightarrow> string \<Rightarrow> extension list" where
  \<comment> \<open>\<open>name_groups.get(key, [])\<close>\<close>
  "group_of gs k = (case map_of gs k of None \<Rightarrow> [] | Some g \<Rightarrow> g)"

definition foo_mapping :: raw_mapping where
  "foo_mapping =
     [(''pub.a'', Object \<lparr> m_name = Some ''foobar'', m_publisher = Some ''p1'',
                           m_version = Some ''1.0'', m_enabled = Some True \<rparr>),
      (''pub.b'', Object \<lparr> m_name = Some ''Baz'', m_publisher = Some ''p2'',
                           m_version = Some ''2.0'', m_enabled = Some True \<rparr>),
      (''pub.c'', Object \<lparr> m_name = Some ''Foo Bar'', m_publisher = Some ''p3'',
                           m_version = Some ''3.0'', m_enabled = Some True \<rparr>)]"

definition scenario_mapping :: raw_mapping where
  "scenario_mapping =
     [(''pub.ext1'', Object \<lparr> m_name = Some ''Alpha Theme'', m_publisher = Some ''pub'',
                              m_version = Some ''1.0'', m_enabled = Some False \<rparr>),
      (''pub.ext2'', Object \<lparr> m_name = Some ''Alpha Theme'', m_publisher = Some ''pub2'',
                              m_version = Some ''2.0'', m_enabled = Some True \<rparr>)]"

definition run_env :: "input_file \<Rightarrow> timestamp \<Rightarrow> env" where
  \<comment> \<open>a run in which every \<open>print\<close> call succeeds and every output file can be
      written\<close>
  "run_env i t =
     \<lparr> input = i, clock = t, stdout_accepts = (\<lambda>n. True), listing_writable = True,
       analysis_writable = True, error_writable = True \<rparr>"


section \<open>Properties\<close>

subsection \<open>Building and sorting the record list\<close>

lemma build_loop_eq: "build_loop acc data = acc @ concat (map record_of_entry data)"
proof (induction data arbitrary: acc)
  case Nil
  show ?case by simp
next
  case (Cons kv data)
  obtain k v where kv: "kv = (k, v)" by (cases kv)
  show ?case
    by (cases v) (simp_all add: kv Cons.IH record_of_entry_def)
qed

lemma build_records_eq: "build_records data = concat (map record_of_entry data)"
  by (simp add: build_records_def build_loop_eq)

lemma build_records_ids:
  "map ext_id (build_records data) = map fst (filter (\<lambda>kv. is_object (snd kv)) data)"
proof (induction data)
  case Nil
  show ?case by (simp add: build_records_eq)
next
  case (Cons kv data)
  obtain k v where kv: "kv = (k, v)" by (cases kv)
  from Cons.IH show ?case
    by (cases v) (simp_all add: kv build_records_eq record_of_entry_def make_record_def)
qed

lemma set_build_records:
  "set (build_records data) = {make_record k m | k m. (k, Object m) \<in> set data}"
proof (induction data)
  case Nil
  show ?case by (simp add: build_records_eq)
next
  case (Cons kv data)
  obtain k v where kv: "kv = (k, v)" by (cases kv)
  from Cons.IH show ?case
    by (cases v) (auto simp add: kv build_records_eq record_of_entry_def)
qed

text \<open>
  C6. The record list after the sort holds the records built from the mapping, is
  non-decreasing by name under the lexicographic order on strings, and the records of
  any one name stand in the order in which the input mapping lists them: the sort is
  stable.
\<close>

theorem extensions_sorted_stable:
  "mset (extensions data) = mset (concat (map record_of_entry data))
   \<and> sorted (map ext_name (extensions data))
   \<and> filter (\<lambda>e. ext_name e = n) (extensions data)
       = filter (\<lambda>e. ext_name e = n) (concat (map record_of_entry data))"
proof -
  have perm: "mset (extensions data) = mset (concat (map record_of_entry data))"
    by (simp add: extensions_def build_records_eq)
  have ordered: "sorted (map ext_name (extensions data))"
    unfolding extensions_def by (rule sorted_sort_key)
  have stable: "filter (\<lambda>e. ext_name e = n) (extensions data)
      = filter (\<lambda>e. ext_name e = n) (build_records data)"
    unfolding extensions_def by (rule sort_key_stable)
  from perm ordered stable show ?thesis
    by (simp only: build_records_eq simp_thms)
qed

lemma table_rows_all: "filter is_table_row (table_rows i es) = table_rows i es"
  by (induction es arbitrary: i) (simp_all add: table_row_def)

lemma length_table_rows: "length (table_rows i es) = length es"
  by (induction es arbitrary: i) simp_all

lemma listing_rows: "filter is_table_row (listing now es) = table_rows 1 es"
  by (simp add: listing_def table_rows_all)

lemma distinct_build_ids:
  "distinct (map fst data) \<Longrightarrow> distinct (map ext_id (build_records data))"
  by (simp add: build_records_ids distinct_map_filter)

lemma distinct_extension_ids:
  "distinct (map fst data) \<Longrightarrow> distinct (map ext_id (extensions data))"
proof -
  assume d: "distinct (map fst data)"
  have "mset (map ext_id (extensions data)) = mset (map ext_id (build_records data))"
    by (simp add: extensions_def)
  then show ?thesis
    using distinct_build_ids [OF d] by (metis mset_eq_imp_distinct_iff)
qed

text \<open>
  C1. For a mapping with distinct keys, the record list holds exactly the records made
  from the entries whose value is an object, one for each such key; a record takes
  \<open>N/A\<close> for an absent name, publisher or version and \<open>True\<close> for an absent
  \<open>enabled\<close>; and the table rows of the listing are one row for each record.
\<close>

theorem records_and_rows:
  assumes "distinct (map fst data)"
  shows "set (extensions data) = {make_record k m | k m. (k, Object m) \<in> set data}
    \<and> distinct (map ext_id (extensions data))
    \<and> length (extensions data) = length (filter (\<lambda>kv. is_object (snd kv)) data)
    \<and> make_record k m =
        \<lparr> ext_id = k,
          ext_name = (case m_name m of None \<Rightarrow> ''N/A'' | Some s \<Rightarrow> s),
          ext_publisher = (case m_publisher m of None \<Rightarrow> ''N/A'' | Some s \<Rightarrow> s),
          ext_version = (case m_version m of None \<Rightarrow> ''N/A'' | Some s \<Rightarrow> s),
          ext_enabled = (case m_enabled m of None \<Rightarrow> True | Some b \<Rightarrow> b) \<rparr>
    \<and> filter is_table_row (listing now (extensions data)) = table_rows 1 (extensions data)
    \<and> length (filter is_table_row (listing now (extensions data)))
        = length (filter (\<lambda>kv. is_object (snd kv)) data)"
proof -
  have len: "length (extensions data) = length (filter (\<lambda>kv. is_object (snd kv)) data)"
    using arg_cong [OF build_records_ids [of data], of length]
    by (simp add: extensions_def)
  have s: "set (extensions data) = {make_record k m | k m. (k, Object m) \<in> set data}"
    by (simp add: extensions_def set_build_records)
  have mk: "make_record k m =
        \<lparr> ext_id = k,
          ext_name = (case m_name m of None \<Rightarrow> ''N/A'' | Some s \<Rightarrow> s),
          ext_publisher = (case m_publisher m of None \<Rightarrow> ''N/A'' | Some s \<Rightarrow> s),
          ext_version = (case m_version m of None \<Rightarrow> ''N/A'' | Some s \<Rightarrow> s),
          ext_enabled = (case m_enabled m of None \<Rightarrow> True | Some b \<Rightarrow> b) \<rparr>"
    by (simp add: make_record_def get_default_def)
  have rows: "length (filter is_table_row (listing now (extensions data)))
        = length (filter (\<lambda>kv. is_object (snd kv)) data)"
    by (simp only: listing_rows length_table_rows len)
  from s distinct_extension_ids [OF assms] len mk listing_rows rows show ?thesis
    by blast
qed

theorem records_and_rows_witness:
  "distinct (map fst example_mapping)
   \<and> length (extensions example_mapping) = 2
   \<and> length (filter is_table_row (listing ''2025-01-27 10:00:00'' (extensions example_mapping))) = 2
   \<and> map ext_id (extensions example_mapping) = [''pub.bare'', ''pub.zeta'']
   \<and> map ext_name (extensions example_mapping) = [''N/A'', ''Zeta'']
   \<and> map ext_enabled (extensions example_mapping) = [True, False]"
proof -
  have d: "distinct (map fst example_mapping)"
    by code_simp
  have f: "length (filter (\<lambda>kv. is_object (snd kv)) example_mapping) = 2"
    by code_simp
  have i: "map ext_id (extensions example_mapping) = [''pub.bare'', ''pub.zeta'']"
    by code_simp
  have n: "map ext_name (extensions example_mapping) = [''N/A'', ''Zeta'']"
    by code_simp
  have b: "map ext_enabled (extensions example_mapping) = [True, False]"
    by code_simp
  note r = records_and_rows [OF d, where now = "''2025-01-27 10:00:00''"]
  from r have l: "length (extensions example_mapping)
      = length (filter (\<lambda>kv. is_object (snd kv)) example_mapping)"
    by blast
  from r have t: "length (filter is_table_row
        (listing ''2025-01-27 10:00:00'' (extensions example_mapping)))
      = length (filter (\<lambda>kv. is_object (snd kv)) example_mapping)"
    by blast
  from d l t i n b show ?thesis
    by (simp only: f simp_thms)
qed

subsection \<open>Cell truncation\<close>

lemma length_truncate_id: "length (truncate_id s) \<le> 50"
  by (simp add: truncate_id_def)

lemma length_truncate_name: "length (truncate_name s) \<le> 35"
  by (simp add: truncate_name_def)

lemma suffix_ellipsis: "suffix ''...'' (xs @ ''...'')"
  by (rule suffixI) (rule refl)

lemma suffix_truncate_id:
  "suffix ''...'' (truncate_id s) \<longleftrightarrow> length s > 50 \<or> suffix ''...'' s"
  by (simp add: truncate_id_def suffix_ellipsis)

lemma suffix_truncate_name:
  "suffix ''...'' (truncate_name s) \<longleftrightarrow> length s > 35 \<or> suffix ''...'' s"
  by (simp add: truncate_name_def suffix_ellipsis)

lemma length_id_cell: "length (ljust 50 (truncate_id s)) = 50"
  using length_truncate_id [of s] by (simp add: ljust_def)

lemma length_name_cell: "length (ljust 35 (truncate_name s)) = 35"
  using length_truncate_name [of s] by (simp add: ljust_def)

text \<open>
  C7, as the code has it. The id cell is at most 50 characters long: an id longer than
  50 is cut to its first 47 characters followed by three dots, and any other id is
  rendered unchanged, so the cell ends in three dots exactly when the id is longer
  than 50 or itself ends in three dots. The name cell follows the same rule at 35 and
  32. Padded to its column, the id cell is 50 and the name cell 35 characters long.
\<close>

theorem truncation_cells:
  "length (truncate_id s) \<le> 50
   \<and> truncate_id s = (if length s > 50 then take 47 s @ ''...'' else s)
   \<and> (suffix ''...'' (truncate_id s) \<longleftrightarrow> length s > 50 \<or> suffix ''...'' s)
   \<and> length (ljust 50 (truncate_id s)) = 50
   \<and> length (truncate_name s) \<le> 35
   \<and> truncate_name s = (if length s > 35 then take 32 s @ ''...'' else s)
   \<and> (suffix ''...'' (truncate_name s) \<longleftrightarrow> length s > 35 \<or> suffix ''...'' s)
   \<and> length (ljust 35 (truncate_name s)) = 35"
  using length_truncate_id [of s] length_truncate_name [of s]
    suffix_truncate_id [of s] suffix_truncate_name [of s]
    length_id_cell [of s] length_name_cell [of s]
    truncate_id_def [of s] truncate_name_def [of s]
  by blast

text \<open>
  An id of exactly 50 characters that ends in three dots is rendered unchanged: its
  cell ends in three dots although the id is not longer than 50.
\<close>

theorem ellipsis_iff_counterexample:
  "\<not> (suffix ''...'' (truncate_id (replicate 47 CHR ''a'' @ ''...''))
        \<longleftrightarrow> length (replicate 47 CHR ''a'' @ ''...'') > 50)"
  by (simp add: truncate_id_def suffix_ellipsis)

subsection \<open>Category counts and the residual\<close>

lemma category_counts_le:
  "length (language_exts exts) \<le> length exts"
  "length (theme_exts exts) \<le> length exts"
  "length (git_exts exts) \<le> length exts"
  "length (debug_exts exts) \<le> length exts"
  "length (format_exts exts) \<le> length exts"
  by (simp_all add: language_exts_def theme_exts_def git_exts_def debug_exts_def
      format_exts_def)

lemma last_listing: "last (listing now exts) = Other_Count (other_count exts)"
  by (simp add: listing_def)

text \<open>
  C4. The residual count, which is the last line of the listing, is the number of
  records minus the sum of the five category counts; each category count is at most
  the number of records; and there is an input mapping whose residual is negative,
  since a record in two categories is subtracted twice.
\<close>

theorem other_count_residual:
  "other_count exts
     = int (length exts)
       - (int (length (language_exts exts)) + int (length (theme_exts exts))
          + int (length (git_exts exts)) + int (length (debug_exts exts))
          + int (length (format_exts exts)))
   \<and> last (listing now exts) = Other_Count (other_count exts)
   \<and> length (language_exts exts) \<le> length exts
   \<and> length (theme_exts exts) \<le> length exts
   \<and> length (git_exts exts) \<le> length exts
   \<and> length (debug_exts exts) \<le> length exts
   \<and> length (format_exts exts) \<le> length exts
   \<and> (\<exists>data. distinct (map fst data) \<and> other_count (extensions data) < 0)"
proof -
  have n: "other_count (extensions overlap_mapping) < 0"
    by code_simp
  have d: "distinct (map fst overlap_mapping)"
    by code_simp
  from n d have ex: "\<exists>data. distinct (map fst data) \<and> other_count (extensions data) < 0"
    by blast
  have eq: "other_count exts
     = int (length exts)
       - (int (length (language_exts exts)) + int (length (theme_exts exts))
          + int (length (git_exts exts)) + int (length (debug_exts exts))
          + int (length (format_exts exts)))"
    by (simp add: other_count_def)
  from eq ex last_listing [of now exts] category_counts_le [of exts] show ?thesis
    by blast
qed

subsection \<open>Category membership\<close>

lemma sublist_map_iff:
  "sublist w (map f s) \<longleftrightarrow> (\<exists>ps t ss. s = ps @ t @ ss \<and> map f t = w)"
proof
  assume "sublist w (map f s)"
  then obtain ps' ss' where m: "map f s = ps' @ (w @ ss')"
    unfolding sublist_def by blast
  from m have "\<exists>us vs. s = us @ vs \<and> ps' = map f us \<and> w @ ss' = map f vs"
    by (rule iffD1 [OF map_eq_append_conv])
  then obtain ps r where s: "s = ps @ r" and r: "map f r = w @ ss'"
    by metis
  from r have "\<exists>us vs. r = us @ vs \<and> w = map f us \<and> ss' = map f vs"
    by (rule iffD1 [OF map_eq_append_conv])
  then obtain t ss where "r = t @ ss" and "map f t = w"
    by metis
  with s show "\<exists>ps t ss. s = ps @ t @ ss \<and> map f t = w"
    by blast
next
  assume "\<exists>ps t ss. s = ps @ t @ ss \<and> map f t = w"
  then obtain ps t ss where "s = ps @ t @ ss" and "map f t = w"
    by blast
  then have "map f s = map f ps @ w @ map f ss"
    by simp
  then show "sublist w (map f s)"
    by (simp only: sublist_appendI)
qed

lemma contains_lower_iff:
  "lower word = word \<Longrightarrow> contains word (lower s) \<longleftrightarrow> occurs_ci word s"
  by (simp add: contains_def lower_def occurs_ci_def sublist_map_iff)

lemma keywords_lower:
  "lower ''language'' = ''language''"
  "lower ''syntax'' = ''syntax''"
  "lower ''theme'' = ''theme''"
  "lower ''git'' = ''git''"
  "lower ''debug'' = ''debug''"
  "lower ''formatter'' = ''formatter''"
  "lower ''linter'' = ''linter''"
  "lower ''prettier'' = ''prettier''"
  "lower ''eslint'' = ''eslint''"
  by code_simp+


lemma is_language_iff:
  "is_language e \<longleftrightarrow>
     occurs_ci ''language'' (ext_id e) \<or> occurs_ci ''language'' (ext_name e)
     \<or> occurs_ci ''syntax'' (ext_id e)"
  unfolding is_language_def
  using contains_lower_iff [OF keywords_lower(1), of "ext_id e"]
    contains_lower_iff [OF keywords_lower(1), of "ext_name e"]
    contains_lower_iff [OF keywords_lower(2), of "ext_id e"]
  by blast

lemma is_theme_iff:
  "is_theme e \<longleftrightarrow> occurs_ci ''theme'' (ext_id e) \<or> occurs_ci ''theme'' (ext_name e)"
  unfolding is_theme_def
  using contains_lower_iff [OF keywords_lower(3), of "ext_id e"]
    contains_lower_iff [OF keywords_lower(3), of "ext_name e"]
  by blast

lemma is_git_iff:
  "is_git e \<longleftrightarrow> occurs_ci ''git'' (ext_id e) \<or> occurs_ci ''git'' (ext_name e)"
  unfolding is_git_def
  using contains_lower_iff [OF keywords_lower(4), of "ext_id e"]
    contains_lower_iff [OF keywords_lower(4), of "ext_name e"]
  by blast

lemma is_debug_iff:
  "is_debug e \<longleftrightarrow> occurs_ci ''debug'' (ext_id e) \<or> occurs_ci ''debug'' (ext_name e)"
  unfolding is_debug_def
  using contains_lower_iff [OF keywords_lower(5), of "ext_id e"]
    contains_lower_iff [OF keywords_lower(5), of "ext_name e"]
  by blast

lemma is_format_iff:
  "is_format e \<longleftrightarrow>
     occurs_ci ''formatter'' (ext_id e) \<or> occurs_ci ''linter'' (ext_id e)
     \<or> occurs_ci ''prettier'' (ext_id e) \<or> occurs_ci ''eslint'' (ext_id e)"
  unfolding is_format_def list_ex_Cons_iff list_ex_Nil_iff
  using contains_lower_iff [OF keywords_lower(6), of "ext_id e"]
    contains_lower_iff [OF keywords_lower(7), of "ext_id e"]
    contains_lower_iff [OF keywords_lower(8), of "ext_id e"]
    contains_lower_iff [OF keywords_lower(9), of "ext_id e"]
  by blast


lemma overlap_theme: "is_theme (sample ''pub.git-theme'' ''Plain'')"
  by code_simp

lemma overlap_git: "is_git (sample ''pub.git-theme'' ''Plain'')"
  by code_simp

lemma format_ignores_name: "\<not> is_format (sample ''pub.tool'' ''Prettier'')"
  by code_simp

text \<open>
  C3. A record of the list is in the language category iff "language" occurs
  case-insensitively in its id or its name or "syntax" occurs in its id; in the theme,
  git and debug categories iff the keyword occurs in its id or its name; in the format
  category iff one of "formatter", "linter", "prettier", "eslint" occurs in its id.
  One record can be in several categories (an id with "git-theme" is in theme and
  git), and the name is not looked at for the format category.
\<close>

theorem category_membership:
  "(e \<in> set (language_exts exts) \<longleftrightarrow>
      e \<in> set exts \<and> (occurs_ci ''language'' (ext_id e) \<or> occurs_ci ''language'' (ext_name e)
        \<or> occurs_ci ''syntax'' (ext_id e)))
   \<and> (e \<in> set (theme_exts exts) \<longleftrightarrow>
      e \<in> set exts \<and> (occurs_ci ''theme'' (ext_id e) \<or> occurs_ci ''theme'' (ext_name e)))
   \<and> (e \<in> set (git_exts exts) \<longleftrightarrow>
      e \<in> set exts \<and> (occurs_ci ''git'' (ext_id e) \<or> occurs_ci ''git'' (ext_name e)))
   \<and> (e \<in> set (debug_exts exts) \<longleftrightarrow>
      e \<in> set exts \<and> (occurs_ci ''debug'' (ext_id e) \<or> occurs_ci ''debug'' (ext_name e)))
   \<and> (e \<in> set (format_exts exts) \<longleftrightarrow>
      e \<in> set exts \<and> (occurs_ci ''formatter'' (ext_id e) \<or> occurs_ci ''linter'' (ext_id e)
        \<or> occurs_ci ''prettier'' (ext_id e) \<or> occurs_ci ''eslint'' (ext_id e)))
   \<and> is_theme (sample ''pub.git-theme'' ''Plain'')
   \<and> is_git (sample ''pub.git-theme'' ''Plain'')
   \<and> \<not> is_format (sample ''pub.tool'' ''Prettier'')"
proof -
  have l: "e \<in> set (language_exts exts) \<longleftrightarrow> e \<in> set exts \<and> is_language e"
    by (simp add: language_exts_def)
  have t: "e \<in> set (theme_exts exts) \<longleftrightarrow> e \<in> set exts \<and> is_theme e"
    by (simp add: theme_exts_def)
  have g: "e \<in> set (git_exts exts) \<longleftrightarrow> e \<in> set exts \<and> is_git e"
    by (simp add: git_exts_def)
  have d: "e \<in> set (debug_exts exts) \<longleftrightarrow> e \<in> set exts \<and> is_debug e"
    by (simp add: debug_exts_def)
  have f: "e \<in> set (format_exts exts) \<longleftrightarrow> e \<in> set exts \<and> is_format e"
    by (simp add: format_exts_def)
  show ?thesis
    unfolding l t g d f
    using is_language_iff [of e] is_theme_iff [of e] is_git_iff [of e] is_debug_iff [of e]
      is_format_iff [of e] overlap_theme overlap_git format_ignores_name
    by blast
qed

subsection \<open>Duplicate-name groups\<close>

lemma map_of_add_to_group:
  "map_of (add_to_group gs k e) k' =
     (if k' = k then Some (group_of gs k @ [e]) else map_of gs k')"
  by (induction gs) (auto simp add: group_of_def)

lemma keys_add_to_group:
  "map fst (add_to_group gs k e) =
     (if k \<in> set (map fst gs) then map fst gs else map fst gs @ [k])"
  by (induction gs k e rule: add_to_group.induct) auto

lemma distinct_add_to_group:
  "distinct (map fst gs) \<Longrightarrow> distinct (map fst (add_to_group gs k e))"
  by (simp add: keys_add_to_group)

lemma mset_add_to_group:
  "mset (concat (map snd (add_to_group gs k e))) = mset (concat (map snd gs)) + {#e#}"
  by (induction gs k e rule: add_to_group.induct) simp_all

lemma distinct_group_loop:
  "distinct (map fst gs) \<Longrightarrow> distinct (map fst (group_loop gs es))"
  by (induction gs es rule: group_loop.induct) (simp_all add: distinct_add_to_group)

lemma mset_group_loop:
  "mset (concat (map snd (group_loop gs es))) = mset (concat (map snd gs)) + mset es"
  by (induction gs es rule: group_loop.induct) (simp_all add: mset_add_to_group)

lemma keys_add_to_group_set:
  "fst ` set (add_to_group gs k e) = insert k (fst ` set gs)"
  using arg_cong [OF keys_add_to_group [of gs k e], of set] by auto

lemma keys_group_loop:
  "fst ` set (group_loop gs es) = fst ` set gs \<union> name_key ` set es"
  by (induction gs es rule: group_loop.induct) (simp_all add: keys_add_to_group_set)

lemma group_of_add_to_group:
  "group_of (add_to_group gs k e) k' =
     (if k' = k then group_of gs k @ [e] else group_of gs k')"
  by (simp add: group_of_def map_of_add_to_group)

lemma map_of_group_loop:
  "map_of (group_loop gs es) k =
     (if k \<in> fst ` set gs \<union> name_key ` set es
      then Some (group_of gs k @ filter (\<lambda>e. name_key e = k) es) else None)"
proof (induction gs es rule: group_loop.induct)
  case (1 gs)
  show ?case
  proof (cases "map_of gs k")
    case None
    then show ?thesis
      by (simp add: map_of_eq_None_iff)
  next
    case (Some g)
    then have "k \<in> fst ` set gs"
      by (metis map_of_eq_None_iff option.distinct(1))
    with Some show ?thesis
      by (simp add: group_of_def)
  qed
next
  case (2 gs e es)
  show ?case
  proof (cases "k = name_key e")
    case True
    with 2 show ?thesis
      by (simp add: keys_add_to_group_set group_of_add_to_group)
  next
    case False
    with 2 show ?thesis
      by (simp add: keys_add_to_group_set group_of_add_to_group)
  qed
qed

lemma map_of_name_groups:
  "map_of (name_groups exts) k =
     (if k \<in> name_key ` set exts then Some (filter (\<lambda>e. name_key e = k) exts) else None)"
  by (simp add: name_groups_def map_of_group_loop group_of_def)

lemma distinct_name_groups: "distinct (map fst (name_groups exts))"
  by (simp add: name_groups_def distinct_group_loop)

lemma name_groups_member:
  "(k, g) \<in> set (name_groups exts) \<longleftrightarrow>
     k \<in> name_key ` set exts \<and> g = filter (\<lambda>e. name_key e = k) exts"
proof -
  have "(k, g) \<in> set (name_groups exts) \<longleftrightarrow> map_of (name_groups exts) k = Some g"
    using distinct_name_groups [of exts] by simp
  then show ?thesis
    by (auto simp add: map_of_name_groups)
qed

lemma mset_name_groups: "mset (concat (map snd (name_groups exts))) = mset exts"
  by (simp add: name_groups_def mset_group_loop)


lemma duplicates_member:
  "g \<in> set (duplicates exts) \<longleftrightarrow> g \<in> snd ` set (name_groups exts) \<and> length g > 1"
  by (auto simp add: duplicates_def)

lemma duplicates_nonempty: "g \<in> set (duplicates exts) \<Longrightarrow> g \<noteq> []"
  by (auto simp add: duplicates_def)

lemma same_group_iff:
  "(\<exists>g. g \<in> snd ` set (name_groups exts) \<and> e1 \<in> set g \<and> e2 \<in> set g)
     \<longleftrightarrow> e1 \<in> set exts \<and> e2 \<in> set exts \<and> name_key e1 = name_key e2"
proof
  assume "\<exists>g. g \<in> snd ` set (name_groups exts) \<and> e1 \<in> set g \<and> e2 \<in> set g"
  then obtain k g where kg: "(k, g) \<in> set (name_groups exts)" and e1: "e1 \<in> set g"
    and e2: "e2 \<in> set g"
    by auto
  from kg have "g = filter (\<lambda>e. name_key e = k) exts"
    by (simp add: name_groups_member)
  with e1 e2 show "e1 \<in> set exts \<and> e2 \<in> set exts \<and> name_key e1 = name_key e2"
    by simp
next
  assume a: "e1 \<in> set exts \<and> e2 \<in> set exts \<and> name_key e1 = name_key e2"
  let ?g = "filter (\<lambda>e. name_key e = name_key e1) exts"
  from a have "(name_key e1, ?g) \<in> set (name_groups exts)"
    by (simp add: name_groups_member)
  then have "?g \<in> snd ` set (name_groups exts)"
    by force
  moreover from a have "e1 \<in> set ?g \<and> e2 \<in> set ?g"
    by simp
  ultimately show "\<exists>g. g \<in> snd ` set (name_groups exts) \<and> e1 \<in> set g \<and> e2 \<in> set g"
    by blast
qed

lemma foo_duplicates:
  "map (map ext_name) (duplicates (extensions foo_mapping)) = [[''Foo Bar'', ''foobar'']]"
  by code_simp

lemma foo_sorted:
  "map ext_name (extensions foo_mapping) = [''Baz'', ''Foo Bar'', ''foobar'']"
  by code_simp

text \<open>
  C5. Two records are members of one name group iff both are in the record list and
  their names are equal after lower-casing and removing the spaces. The group of a key
  is the sublist of the record list with that key, so its members stand in the order
  of the sorted record list, and no two groups share a key. A group is a duplicate
  group iff it has more than one member: of the names "foobar", "Baz" and "Foo Bar",
  sorted to "Baz", "Foo Bar", "foobar", the last two form the one duplicate group and
  "Baz" forms none.
\<close>

theorem duplicate_name_groups:
  "((\<exists>g. g \<in> snd ` set (name_groups exts) \<and> e1 \<in> set g \<and> e2 \<in> set g)
      \<longleftrightarrow> e1 \<in> set exts \<and> e2 \<in> set exts
          \<and> remove_spaces (lower (ext_name e1)) = remove_spaces (lower (ext_name e2)))
   \<and> ((k, g) \<in> set (name_groups exts) \<longleftrightarrow>
        k \<in> name_key ` set exts
        \<and> g = filter (\<lambda>e. remove_spaces (lower (ext_name e)) = k) exts)
   \<and> distinct (map fst (name_groups exts))
   \<and> (g \<in> set (duplicates exts) \<longleftrightarrow> g \<in> snd ` set (name_groups exts) \<and> length g > 1)
   \<and> map ext_name (extensions foo_mapping) = [''Baz'', ''Foo Bar'', ''foobar'']
   \<and> map (map ext_name) (duplicates (extensions foo_mapping)) = [[''Foo Bar'', ''foobar'']]"
  using same_group_iff [of exts e1 e2] name_groups_member [of k g exts]
    distinct_name_groups [of exts] duplicates_member [of g exts] foo_sorted foo_duplicates
  unfolding name_key_def
  by blast

lemma groups_of_record:
  "{k. \<exists>g. (k, g) \<in> set (name_groups exts) \<and> e \<in> set g}
     = (if e \<in> set exts then {name_key e} else {})"
  by (auto simp add: name_groups_member)

lemma sum_sizes_name_groups:
  "sum_list (map (\<lambda>kg. length (snd kg)) (name_groups exts)) = length exts"
proof -
  have "length (concat (map snd (name_groups exts))) = length exts"
    using arg_cong [OF mset_name_groups [of exts], of size] by simp
  then show ?thesis
    by (simp add: length_concat comp_def)
qed

lemma sum_mset_name_groups:
  "sum_mset (image_mset mset (mset (map snd (name_groups exts)))) = mset exts"
proof -
  have "sum_mset (image_mset mset (mset gs)) = mset (concat gs)" for gs :: "extension list list"
    by (induction gs) simp_all
  then show ?thesis
    by (simp only: mset_name_groups)
qed

text \<open>
  C10. The name groups partition the record list: the groups concatenated hold the
  records of the list with their multiplicities, in whatever order the groups are
  taken, the group sizes add up to the number of records, and a record of the list is
  a member of the group of its own key and of no group of another key.
\<close>

theorem name_groups_partition:
  "mset (concat (map snd (name_groups exts))) = mset exts
   \<and> sum_mset (image_mset mset (mset (map snd (name_groups exts)))) = mset exts
   \<and> sum_list (map (\<lambda>kg. length (snd kg)) (name_groups exts)) = length exts
   \<and> distinct (map fst (name_groups exts))
   \<and> {k. \<exists>g. (k, g) \<in> set (name_groups exts) \<and> e \<in> set g}
       = (if e \<in> set exts then {name_key e} else {})"
  using mset_name_groups [of exts] sum_mset_name_groups [of exts]
    sum_sizes_name_groups [of exts] distinct_name_groups [of exts] groups_of_record [of exts e]
  by blast

subsection \<open>The recommended-removal tally\<close>

lemma removal_loop_eq:
  "removal_loop r gs
     = r + sum_list (map (\<lambda>g. int (length g) - 1) (filter (\<lambda>g. length g > 1) gs))"
  by (induction r gs rule: removal_loop.induct) simp_all

lemma recommended_removals_eq:
  "recommended_removals exts
     = int (length (disabled_exts exts))
       + sum_list (map (\<lambda>g. int (length g) - 1) (duplicates exts))"
proof -
  have f: "filter (\<lambda>g. length g > 1) (duplicates exts) = duplicates exts"
    by (simp add: duplicates_def)
  have l: "removal_loop r (duplicates exts)
      = r + sum_list (map (\<lambda>g. int (length g) - 1) (duplicates exts))" for r
    using removal_loop_eq [of r "duplicates exts"] by (simp only: f)
  show ?thesis
    by (cases "disabled_exts exts") (simp_all add: recommended_removals_def l)
qed

lemma last_analysis: "last (analysis exts) = Kept_Summary (length exts) (kept exts)"
  by (simp add: analysis_def)

lemma scenario_counts:
  "length (extensions scenario_mapping) = 2"
  "length (disabled_exts (extensions scenario_mapping)) = 1"
  "map length (duplicates (extensions scenario_mapping)) = [2]"
  by code_simp+

lemma scenario_tally: "recommended_removals (extensions scenario_mapping) = 2"
  by code_simp

lemma scenario_kept: "kept (extensions scenario_mapping) = 0"
  by code_simp

text \<open>
  C2. The recommended-removal tally is the number of disabled records plus, summed
  over the duplicate groups, the size of the group minus one; the kept figure, which
  the last line of the analysis reports, is the number of records minus the tally. A
  disabled record in a duplicate group counts in both terms: in the scenario of two
  records named "Alpha Theme", one of them disabled, the tally is 2 and the kept
  figure 0.
\<close>

theorem removal_tally:
  "recommended_removals exts
     = int (length (disabled_exts exts))
       + sum_list (map (\<lambda>g. int (length g) - 1) (duplicates exts))
   \<and> kept exts = int (length exts) - recommended_removals exts
   \<and> last (analysis exts) = Kept_Summary (length exts) (kept exts)
   \<and> length (disabled_exts (extensions scenario_mapping)) = 1
   \<and> map length (duplicates (extensions scenario_mapping)) = [2]
   \<and> recommended_removals (extensions scenario_mapping) = 2
   \<and> kept (extensions scenario_mapping) = 0"
  using recommended_removals_eq [of exts] kept_def [of exts] last_analysis [of exts]
    scenario_counts(2,3) scenario_tally scenario_kept
  by blast

subsection \<open>The missing input file\<close>

lemmas step_defs = and_then_def print_at_def check_exists_def open_and_parse_def items_def
  write_listing_def write_analysis_def



lemma handler_fields:
  "exit_code (handler e x w) = 1"
  "events (handler e x w)
     = events w @ (if stdout_accepts e 218 then [Print 218, Open_Write error_path]
                   else [Print 218])"
  "error_file (handler e x w)
     = (if stdout_accepts e 218 \<and> error_writable e then Some (error_msg x) else error_file w)"
  "uncaught (handler e x w)
     = (if stdout_accepts e 218 then uncaught w else Some (Print_Failed 218))"
  "listing_file (handler e x w) = listing_file w"
  "analysis_file (handler e x w) = analysis_file w"
  by (simp_all add: handler_def log_def Let_def)






subsection \<open>What the two documents depend on\<close>

lemma load_result:
  "snd (load e w) = Inr data \<Longrightarrow> input e = Mapping data"
  by (simp add: load_def step_defs Let_def split: if_splits input_file.splits)

lemma load_files:
  "analysis_file (fst (load e w)) = analysis_file w"
  "listing_file (fst (load e w)) = listing_file w"
  by (simp_all add: load_def step_defs Let_def log_def split: if_splits input_file.splits)

lemma report_analysis:
  "analysis_file (fst (report e data w)) = analysis_file w
   \<or> analysis_file (fst (report e data w)) = Some (analysis (extensions data))"
  by (simp add: report_def step_defs Let_def log_def split: if_splits)

lemma analysis_file_main:
  "analysis_file (main e) = None
   \<or> (\<exists>data. input e = Mapping data
        \<and> analysis_file (main e) = Some (analysis (extensions data)))"
proof (cases "load e initial")
  case (Pair w r)
  have w: "analysis_file w = None"
    using load_files(1) [of e initial] Pair by (simp add: initial_def)
  show ?thesis
  proof (cases r)
    case (Inl x)
    with Pair w show ?thesis
      by (simp add: main_def body_def and_then_def handler_fields)
  next
    case (Inr data)
    with Pair have i: "input e = Mapping data"
      using load_result [of e initial data] by simp
    obtain w' r' where rep: "report e data w = (w', r')"
      by (cases "report e data w")
    from report_analysis [of e data w] rep w
    have a: "analysis_file w' = None \<or> analysis_file w' = Some (analysis (extensions data))"
      by simp
    have "analysis_file (main e) = analysis_file w'"
      using Pair Inr rep
      by (cases r') (simp_all add: main_def body_def and_then_def handler_fields)
    with a i show ?thesis
      by simp
  qed
qed

lemma run_env_files:
  "listing_file (main (run_env (Mapping data) t)) = Some (listing t (extensions data))"
  "analysis_file (main (run_env (Mapping data) t)) = Some (analysis (extensions data))"
  by (simp_all add: main_def body_def load_def report_def step_defs Let_def log_def
      run_env_def initial_def)


lemma listings_differ:
  "listing_file (main (run_env (Mapping scenario_mapping) ''2025-01-27 10:00:00''))
     \<noteq> listing_file (main (run_env (Mapping scenario_mapping) ''2025-01-27 10:00:01''))"
  by (simp add: run_env_files listing_def)

lemma listing_written:
  "listing_file (main (run_env (Mapping data) t)) \<noteq> None"
  by (simp add: run_env_files)

lemma analysis_written:
  "analysis_file (main (run_env (Mapping data) t)) \<noteq> None"
  by (simp add: run_env_files)

text \<open>
  C9. Two runs on the same input that both write the analysis document write the same
  analysis document, whatever their clocks read: the analysis is built from the record
  list alone. The listing document holds the generation time, and there are two runs
  on the same input, one second apart, whose listing documents differ.
\<close>

theorem analysis_deterministic:
  assumes "input e1 = input e2"
    and "analysis_file (main e1) \<noteq> None"
    and "analysis_file (main e2) \<noteq> None"
  shows "analysis_file (main e1) = analysis_file (main e2)
    \<and> (\<exists>a b. input a = input b
          \<and> listing_file (main a) \<noteq> None \<and> listing_file (main b) \<noteq> None
          \<and> listing_file (main a) \<noteq> listing_file (main b))"
proof -
  from analysis_file_main [of e1] assms(2) obtain d1 where
    d1: "input e1 = Mapping d1" "analysis_file (main e1) = Some (analysis (extensions d1))"
    by blast
  from analysis_file_main [of e2] assms(3) obtain d2 where
    d2: "input e2 = Mapping d2" "analysis_file (main e2) = Some (analysis (extensions d2))"
    by blast
  from d1(1) d2(1) assms(1) have "d1 = d2"
    by simp
  with d1(2) d2(2) have same: "analysis_file (main e1) = analysis_file (main e2)"
    by simp
  let ?a = "run_env (Mapping scenario_mapping) ''2025-01-27 10:00:00''"
  let ?b = "run_env (Mapping scenario_mapping) ''2025-01-27 10:00:01''"
  have "input ?a = input ?b"
    by (simp add: run_env_def)
  with listings_differ listing_written [of scenario_mapping "''2025-01-27 10:00:00''"]
    listing_written [of scenario_mapping "''2025-01-27 10:00:01''"]
  have "\<exists>a b. input a = input b
          \<and> listing_file (main a) \<noteq> None \<and> listing_file (main b) \<noteq> None
          \<and> listing_file (main a) \<noteq> listing_file (main b)"
    by blast
  with same show ?thesis
    by blast
qed

theorem analysis_deterministic_witness:
  "input (run_env (Mapping scenario_mapping) ''2025-01-27 10:00:00'')
     = input (run_env (Mapping scenario_mapping) ''2025-01-27 10:00:01'')
   \<and> analysis_file (main (run_env (Mapping scenario_mapping) ''2025-01-27 10:00:00'')) \<noteq> None
   \<and> analysis_file (main (run_env (Mapping scenario_mapping) ''2025-01-27 10:00:01'')) \<noteq> None
   \<and> analysis_file (main (run_env (Mapping scenario_mapping) ''2025-01-27 10:00:00''))
       = analysis_file (main (run_env (Mapping scenario_mapping) ''2025-01-27 10:00:01''))"
proof -
  let ?a = "run_env (Mapping scenario_mapping) ''2025-01-27 10:00:00''"
  let ?b = "run_env (Mapping scenario_mapping) ''2025-01-27 10:00:01''"
  have i: "input ?a = input ?b"
    by (simp add: run_env_def)
  have wa: "analysis_file (main ?a) \<noteq> None"
    by (rule analysis_written)
  have wb: "analysis_file (main ?b) \<noteq> None"
    by (rule analysis_written)
  from analysis_deterministic [OF i wa wb] i wa wb show ?thesis
    by blast
qed

end
